theory Spec2Isabelle
  imports Complex_Main "HOL-Library.Word"
begin

section \<open>Velodyne HDL-64E raw data accessor: \<^verbatim>\<open>velodyne_pointcloud/src/lib/rawdata.cc\<close>\<close>

text \<open>
  A shallow embedding of the classes \<^verbatim>\<open>RawData\<close>, \<^verbatim>\<open>RawDataScans\<close> and \<^verbatim>\<open>RawDataXYZ\<close>.

  Conventions of the embedding.
  \<^item> C \<^verbatim>\<open>float\<close> and \<^verbatim>\<open>double\<close> values are idealised as \<^typ>\<open>real\<close>: rounding, infinities and
    NaN are not modelled, so every statement about a computed number is a statement about
    the exact value of the expression the code evaluates.
  \<^item> \<^verbatim>\<open>uint8_t\<close> and \<^verbatim>\<open>uint16_t\<close> are \<^typ>\<open>8 word\<close> and \<^typ>\<open>16 word\<close>; C \<^verbatim>\<open>int\<close> variables whose
    values stay small are \<^typ>\<open>nat\<close> (loop counters) or \<^typ>\<open>int\<close>.
  \<^item> A fixed-size C array \<^verbatim>\<open>T a[N]\<close> that the code reads only at indices below \<^verbatim>\<open>N\<close> is a
    function \<^typ>\<open>nat \<Rightarrow> 'a\<close> whose cells \<open>0 .. N - 1\<close> are the array. Every array access
    whose index is not bounded by the code itself is guarded in the model, and the
    undefined behaviour of C is the value \<open>Inl OutOfBounds\<close>.
  \<^item> A C++ data member \<^verbatim>\<open>x_\<close> is the record field \<open>m_x\<close>.
\<close>

subsection \<open>Constants and types of \<^verbatim>\<open>rawdata.h\<close>\<close>

text \<open>
  Modelled from the spec: the header \<^verbatim>\<open>velodyne_pointcloud/rawdata.h\<close> is not among the
  sources. The spec fixes twelve blocks of thirty-two returns per packet, three bytes per
  return (a two-byte range and a one-byte intensity), a rotation resolution of 0.01 degree
  and a distance resolution of 2 mm. The spec gives no value for the bank tag
  \<^verbatim>\<open>LOWER_BANK\<close>; the value below is the one of the HDL-64E wire format, and no theorem of
  this theory depends on it.
\<close>

definition RAW_SCAN_SIZE :: nat where
  "RAW_SCAN_SIZE = 3"

definition SCANS_PER_BLOCK :: nat where
  "SCANS_PER_BLOCK = 32"

definition BLOCKS_PER_PACKET :: nat where
  "BLOCKS_PER_PACKET = 12"

definition SCANS_PER_PACKET :: nat where
  "SCANS_PER_PACKET = SCANS_PER_BLOCK * BLOCKS_PER_PACKET"

definition ROTATION_RESOLUTION :: real where
  "ROTATION_RESOLUTION = 0.01"

definition DISTANCE_RESOLUTION :: real where
  "DISTANCE_RESOLUTION = 0.002"

definition LOWER_BANK :: "16 word" where
  "LOWER_BANK = 0xddff"

text \<open>\<^verbatim>\<open>struct correction_angles\<close>: the calibration record of one laser.\<close>

record correction_angles =
  rotational :: real
  vertical :: real
  offset1 :: real
  offset2 :: real
  offset3 :: real
  horzCorr :: real
  vertCorr :: real
  enabled :: int

text \<open>
  \<^verbatim>\<open>raw_block_t\<close> and \<^verbatim>\<open>raw_packet_t\<close>: the typed view of a packet. \<open>data\<close> is the array
  \<^verbatim>\<open>uint8_t data[SCANS_PER_BLOCK * RAW_SCAN_SIZE]\<close>, \<open>blocks\<close> the array
  \<^verbatim>\<open>raw_block_t blocks[BLOCKS_PER_PACKET]\<close>.
\<close>

record raw_block =
  header :: "16 word"
  rotation :: "16 word"
  data :: "nat \<Rightarrow> 8 word"

record raw_packet =
  blocks :: "nat \<Rightarrow> raw_block"
  revolution :: "16 word"
  status :: "nat \<Rightarrow> 8 word"

text \<open>
  \<^verbatim>\<open>laserscan_t\<close> and \<^verbatim>\<open>laserscan_xyz_t\<close>. The field \<^verbatim>\<open>range\<close> is \<open>range_m\<close> here; the fields
  of the Cartesian point carry the prefix \<open>xyz_\<close>.
\<close>

record laserscan =
  laser_number :: int
  heading :: real
  pitch :: real
  range_m :: real
  intensity :: "8 word"
  scan_revolution :: "16 word"

record laserscan_xyz =
  xyz_laser_number :: int
  xyz_heading :: real
  xyz_revolution :: "16 word"
  xyz_x :: real
  xyz_y :: real
  xyz_z :: real
  xyz_intensity :: "8 word"

text \<open>
  The outcomes C leaves undefined or fatal: an array access outside its array, and a
  failed \<^verbatim>\<open>ROS_ASSERT\<close>.
\<close>

datatype fault = OutOfBounds | AssertFailed

subsection \<open>Helpers of the \<^verbatim>\<open>angles\<close> package and of the C library\<close>

text \<open>\<^verbatim>\<open>angles::from_degrees\<close>: degrees times \<open>\<pi> / 180\<close>.\<close>

definition from_degrees :: "real \<Rightarrow> real" where
  "from_degrees degrees = degrees * pi / 180"

text \<open>
  Modelled from the spec: \<^verbatim>\<open>angles::normalize_angle\<close> belongs to the external \<^verbatim>\<open>angles\<close>
  package and is not among the sources. The spec says that normalization maps an angle
  to \<open>(-\<pi>, \<pi>]\<close>: the angle is moved by whole turns into that interval.
\<close>

definition normalize_angle :: "real \<Rightarrow> real" where
  "normalize_angle angle = angle - 2 * pi * of_int \<lceil>(angle - pi) / (2 * pi)\<rceil>"

text \<open>
  \<^verbatim>\<open>union two_bytes\<close>: the value of \<^verbatim>\<open>tmp.uint\<close> after \<^verbatim>\<open>tmp.bytes[0]\<close> and \<^verbatim>\<open>tmp.bytes[1]\<close> were
  written, on a little-endian host.
\<close>

definition two_bytes_uint :: "8 word \<Rightarrow> 8 word \<Rightarrow> 16 word" where
  "two_bytes_uint b0 b1 = word_of_nat (unat b0 + 256 * unat b1)"

subsection \<open>\<^verbatim>\<open>RawDataScans::packet2scans\<close>\<close>

text \<open>
  The body of the inner loop (lines 193 to 215): the entry written to \<^verbatim>\<open>scans[index]\<close> for
  laser slot \<open>j\<close>, whose three raw bytes start at offset \<open>k\<close> of the block's data.
\<close>

definition scan_entry ::
  "(nat \<Rightarrow> correction_angles) \<Rightarrow> int \<Rightarrow> real \<Rightarrow> raw_block \<Rightarrow> 16 word \<Rightarrow> nat \<Rightarrow> nat \<Rightarrow> laserscan"
where
  "scan_entry corrections bank_origin rot blk revo j k =
     (let tmp = two_bytes_uint (data blk k) (data blk (k + 1));
          r = real (unat tmp) * DISTANCE_RESOLUTION
      in \<lparr> laser_number = int j + bank_origin,
           heading = normalize_angle (- (rot - rotational (corrections j))),
           pitch = vertical (corrections j),
           range_m = offset1 (corrections j) * r * r
                     + offset2 (corrections j) * r
                     + offset3 (corrections j),
           intensity = data blk (k + 2),
           scan_revolution = revo \<rparr>)"

text \<open>
  The inner loop \<^verbatim>\<open>for (int j = 0, k = 0; j < SCANS_PER_BLOCK; j++, k += RAW_SCAN_SIZE)\<close>,
  from the loop state \<open>(j, k, index)\<close>. The output is the caller's buffer \<open>scans\<close>; a write
  past its end is undefined in C.
\<close>

function scan_loop ::
  "(nat \<Rightarrow> correction_angles) \<Rightarrow> int \<Rightarrow> real \<Rightarrow> raw_block \<Rightarrow> 16 word \<Rightarrow>
   nat \<Rightarrow> nat \<Rightarrow> nat \<Rightarrow> laserscan list \<Rightarrow> fault + (nat \<times> laserscan list)"
where
  "scan_loop corrections bank_origin rot blk revo j k index scans =
     (if j < SCANS_PER_BLOCK then
        (if index < length scans then
           scan_loop corrections bank_origin rot blk revo (j + 1) (k + RAW_SCAN_SIZE) (index + 1)
             (scans[index := scan_entry corrections bank_origin rot blk revo j k])
         else Inl OutOfBounds)
      else Inr (index, scans))"
  by pat_completeness auto
termination
  by (relation "measure (\<lambda>(c, b, r, blk, revo, j, k, index, scans). SCANS_PER_BLOCK - j)") auto

text \<open>
  The bank selection of lines 180 to 186 and the block rotation of line 188.
\<close>

definition bank_origin_of :: "raw_block \<Rightarrow> int" where
  "bank_origin_of blk = (if header blk = LOWER_BANK then 0 else 32)"

definition corrections_of ::
  "(nat \<Rightarrow> correction_angles) \<Rightarrow> (nat \<Rightarrow> correction_angles) \<Rightarrow> raw_block \<Rightarrow> nat \<Rightarrow> correction_angles"
where
  "corrections_of upper lower blk = (if header blk = LOWER_BANK then lower else upper)"

definition block_rotation :: "raw_block \<Rightarrow> real" where
  "block_rotation blk = from_degrees (real (unat (rotation blk)) * ROTATION_RESOLUTION)"

text \<open>The outer loop \<^verbatim>\<open>for (int i = 0; i < BLOCKS_PER_PACKET; i++)\<close>, from the state \<open>(i, index)\<close>.\<close>

function block_loop ::
  "(nat \<Rightarrow> correction_angles) \<Rightarrow> (nat \<Rightarrow> correction_angles) \<Rightarrow> raw_packet \<Rightarrow>
   nat \<Rightarrow> nat \<Rightarrow> laserscan list \<Rightarrow> fault + (nat \<times> laserscan list)"
where
  "block_loop upper lower raw i index scans =
     (if i < BLOCKS_PER_PACKET then
        (case scan_loop (corrections_of upper lower (blocks raw i)) (bank_origin_of (blocks raw i))
                (block_rotation (blocks raw i)) (blocks raw i) (revolution raw) 0 0 index scans of
           Inl e \<Rightarrow> Inl e
         | Inr (index', scans') \<Rightarrow> block_loop upper lower raw (i + 1) index' scans')
      else Inr (index, scans))"
  by pat_completeness auto
termination
  by (relation "measure (\<lambda>(u, l, raw, i, index, scans). BLOCKS_PER_PACKET - i)") auto

text \<open>
  \<^verbatim>\<open>packet2scans\<close>: both loops from \<open>index = 0\<close>, then \<^verbatim>\<open>ROS_ASSERT(index == SCANS_PER_PACKET)\<close>.
\<close>

definition packet2scans ::
  "(nat \<Rightarrow> correction_angles) \<Rightarrow> (nat \<Rightarrow> correction_angles) \<Rightarrow> raw_packet \<Rightarrow>
   laserscan list \<Rightarrow> fault + laserscan list"
where
  "packet2scans upper lower raw scans =
     (case block_loop upper lower raw 0 0 scans of
        Inl e \<Rightarrow> Inl e
      | Inr (index, scans') \<Rightarrow> if index = SCANS_PER_PACKET then Inr scans' else Inl AssertFailed)"

subsection \<open>\<^verbatim>\<open>RawDataXYZ::scan2xyz\<close>\<close>

definition scan2xyz :: "laserscan \<Rightarrow> laserscan_xyz" where
  "scan2xyz scan =
     (let xy_projection = range_m scan * cos (pitch scan)
      in \<lparr> xyz_laser_number = laser_number scan,
           xyz_heading = heading scan,
           xyz_revolution = scan_revolution scan,
           xyz_x = xy_projection * cos (heading scan),
           xyz_y = xy_projection * sin (heading scan),
           xyz_z = range_m scan * sin (pitch scan),
           xyz_intensity = intensity scan \<rparr>)"

text \<open>
  The sample that block \<open>i\<close>, laser slot \<open>j\<close> of a packet decodes to: the loop body at
  \<open>j\<close> and \<open>k = RAW_SCAN_SIZE \<sqdot> j\<close>, under the bank, origin and rotation of block \<open>i\<close>.
\<close>

definition slot_entry ::
  "(nat \<Rightarrow> correction_angles) \<Rightarrow> (nat \<Rightarrow> correction_angles) \<Rightarrow> raw_packet \<Rightarrow> nat \<Rightarrow> nat \<Rightarrow> laserscan"
where
  "slot_entry upper lower raw i j =
     scan_entry (corrections_of upper lower (blocks raw i)) (bank_origin_of (blocks raw i))
       (block_rotation (blocks raw i)) (blocks raw i) (revolution raw) j (RAW_SCAN_SIZE * j)"

subsection \<open>Messages and the state of the accessor objects\<close>

text \<open>
  Modelled from the spec: the fixed packet size, which \<^verbatim>\<open>rawdata.h\<close> declares. It is the
  size of \<^verbatim>\<open>raw_packet_t\<close>: twelve blocks of one hundred bytes (a two-byte tag, a two-byte
  rotation and thirty-two returns of three bytes), the two-byte revolution counter and
  four status bytes.
\<close>

definition PACKET_SIZE :: nat where
  "PACKET_SIZE = 1206"

text \<open>
  Modelled from the spec: \<^verbatim>\<open>velodyne_msgs::VelodynePacket\<close> and \<^verbatim>\<open>velodyne_msgs::VelodyneScan\<close>,
  whose package is not among the sources, as far as the code reads them. The spec gives
  the packet buffer a fixed size: \<open>pkt_data\<close> is the array of \<open>PACKET_SIZE\<close> bytes, a
  function whose cells \<open>0 .. PACKET_SIZE - 1\<close> are the array. A buffer of another length is
  not a value of this type.
\<close>

record VelodynePacket =
  stamp :: nat
  pkt_data :: "nat \<Rightarrow> 8 word"

record VelodyneScan =
  frame_id :: string
  packets :: "VelodynePacket list"

text \<open>
  The members of \<^verbatim>\<open>RawData\<close>, \<^verbatim>\<open>RawDataScans\<close> and \<^verbatim>\<open>RawDataXYZ\<close> in one record. A callback
  member (\<^verbatim>\<open>cb_\<close> of either class) is the flag whether one is subscribed, and the calls it
  receives are logged in \<open>scans_published\<close> and \<open>xyz_published\<close>. \<open>ok_calls\<close> counts the
  calls of \<^verbatim>\<open>ros::ok()\<close> made so far; the answers are a parameter \<open>ros_ok\<close> of the
  operations, indexed by that count.
\<close>

record RawData =
  m_anglesFile :: string
  m_uninitialized :: bool
  m_upper :: "nat \<Rightarrow> correction_angles"
  m_lower :: "nat \<Rightarrow> correction_angles"
  m_rawScan :: "VelodyneScan option"
  m_scans :: "laserscan list"
  m_cb :: bool
  m_xyzScans :: "laserscan_xyz list"
  m_xyz_cb :: bool
  scans_published :: "(laserscan list \<times> nat \<times> string) list"
  xyz_published :: "(laserscan_xyz list \<times> nat \<times> string) list"
  ok_calls :: nat

definition zero_angles :: correction_angles where
  "zero_angles = \<lparr> rotational = 0, vertical = 0, offset1 = 0, offset2 = 0, offset3 = 0,
                    horzCorr = 0, vertCorr = 0, enabled = 0 \<rparr>"

definition zero_scan :: laserscan where
  "zero_scan = \<lparr> laser_number = 0, heading = 0, pitch = 0, range_m = 0, intensity = 0,
                  scan_revolution = 0 \<rparr>"

text \<open>
  The constructor \<^verbatim>\<open>RawData::RawData()\<close>: both banks are cleared by \<^verbatim>\<open>memset\<close>; its body
  assigns no other member.
\<close>

definition RawData_ctor :: "RawData \<Rightarrow> RawData" where
  "RawData_ctor s = s\<lparr> m_upper := (\<lambda>_. zero_angles), m_lower := (\<lambda>_. zero_angles) \<rparr>"

subsection \<open>The C library: \<^verbatim>\<open>istream::getline\<close> and \<^verbatim>\<open>sscanf\<close>\<close>

text \<open>
  \<^verbatim>\<open>config.getline(buffer, n)\<close> on the unread rest of the file. Characters are stored up
  to the next newline, which is extracted and not stored, or up to the end of the file. The
  call fails (the stream converts to false) when nothing is left to extract, and when
  \<open>n - 1\<close> characters are stored and the next character is neither the end of the file nor
  the newline. A result \<open>Some (line, rest)\<close> is a successful call.
\<close>

definition getline :: "nat \<Rightarrow> string \<Rightarrow> (string \<times> string) option" where
  "getline n input =
     (if input = [] then None
      else let line = takeWhile (\<lambda>c. c \<noteq> CHR 0x0A) input;
               rest = dropWhile (\<lambda>c. c \<noteq> CHR 0x0A) input
           in if length line \<le> n - 1 then Some (line, drop 1 rest) else None)"

text \<open>The C string held by a buffer: its characters before the first NUL.\<close>

definition c_str :: "string \<Rightarrow> string" where
  "c_str buffer = takeWhile (\<lambda>c. c \<noteq> CHR 0x00) buffer"

definition isspace_c :: "char \<Rightarrow> bool" where
  "isspace_c c \<longleftrightarrow> c \<in> set [CHR '' '', CHR 0x09, CHR 0x0A, CHR 0x0B, CHR 0x0C, CHR 0x0D]"

definition isdigit_c :: "char \<Rightarrow> bool" where
  "isdigit_c c \<longleftrightarrow> c \<in> set ''0123456789''"

definition decimal :: "string \<Rightarrow> nat" where
  "decimal ds = foldl (\<lambda>n c. 10 * n + (of_char c - 48)) 0 ds"

definition take_sign :: "string \<Rightarrow> bool \<times> string" where
  "take_sign s =
     (case s of
        [] \<Rightarrow> (False, s)
      | c # cs \<Rightarrow> if c = CHR ''-'' then (True, cs) else if c = CHR ''+'' then (False, cs)
                  else (False, s))"

text \<open>
  The conversion \<^verbatim>\<open>%d\<close>: white space is skipped, then an optional sign and at least one
  decimal digit are read. \<open>None\<close> is a failed conversion. The value is not reduced to the
  range of \<^verbatim>\<open>int\<close>.
\<close>

definition scan_d :: "string \<Rightarrow> (int \<times> string) option" where
  "scan_d s =
     (let (neg, t) = take_sign (dropWhile isspace_c s);
          ds = takeWhile isdigit_c t
      in if ds = [] then None
         else Some (if neg then - int (decimal ds) else int (decimal ds), dropWhile isdigit_c t))"

text \<open>
  The exponent part of a decimal floating constant: nothing, or \<^verbatim>\<open>e\<close> or \<^verbatim>\<open>E\<close>, an optional
  sign and at least one digit. An \<^verbatim>\<open>e\<close> that no digit follows fails the conversion.
\<close>

definition scan_exponent :: "string \<Rightarrow> (int \<times> string) option" where
  "scan_exponent s =
     (case s of
        [] \<Rightarrow> Some (0, s)
      | c # cs \<Rightarrow>
          if c = CHR ''e'' \<or> c = CHR ''E'' then
            (let (neg, t) = take_sign cs; ds = takeWhile isdigit_c t
             in if ds = [] then None
                else Some (if neg then - int (decimal ds) else int (decimal ds),
                           dropWhile isdigit_c t))
          else Some (0, s))"

definition pow10 :: "int \<Rightarrow> real" where
  "pow10 e = (if 0 \<le> e then 10 ^ nat e else 1 / 10 ^ nat (- e))"

text \<open>
  The conversion \<^verbatim>\<open>%f\<close> on decimal notation: white space is skipped, then an optional
  sign, digits with an optional point (at least one digit in all) and an optional
  exponent are read. The notations \<^verbatim>\<open>inf\<close>, \<^verbatim>\<open>nan\<close> and hexadecimal are not modelled.
\<close>

definition scan_f :: "string \<Rightarrow> (real \<times> string) option" where
  "scan_f s =
     (let (neg, t) = take_sign (dropWhile isspace_c s);
          ip = takeWhile isdigit_c t;
          t1 = dropWhile isdigit_c t;
          (fp, t2) = (case t1 of
                        [] \<Rightarrow> ([], t1)
                      | c # cs \<Rightarrow> if c = CHR ''.''
                                  then (takeWhile isdigit_c cs, dropWhile isdigit_c cs)
                                  else ([], t1))
      in if ip = [] \<and> fp = [] then None
         else (case scan_exponent t2 of
                 None \<Rightarrow> None
               | Some (e, t3) \<Rightarrow>
                   let m = (real (decimal ip) + real (decimal fp) / 10 ^ length fp) * pow10 e
                   in Some (if neg then - m else m, t3)))"

text \<open>
  \<^verbatim>\<open>sscanf\<close> with a format of \<^verbatim>\<open>%d\<close> and \<^verbatim>\<open>%f\<close> conversions separated by blanks. A conversion
  is given with the assignment to its argument. The blanks of the format skip white
  space, which the next conversion skips anyway. The conversions run in order; each
  success is assigned at once, and the first failure ends the call, which returns the
  number of assignments made, or \<^verbatim>\<open>EOF\<close> when the input ends before the first conversion.
\<close>

datatype 'v conversion = ConvD "int \<Rightarrow> 'v \<Rightarrow> 'v" | ConvF "real \<Rightarrow> 'v \<Rightarrow> 'v"

definition EOF :: int where
  "EOF = - 1"

fun sscanf_from :: "'v conversion list \<Rightarrow> string \<Rightarrow> int \<Rightarrow> 'v \<Rightarrow> int \<times> 'v" where
  "sscanf_from [] s n v = (n, v)"
| "sscanf_from (ConvD put # cs) s n v =
     (case scan_d s of
        None \<Rightarrow> (if n = 0 \<and> dropWhile isspace_c s = [] then EOF else n, v)
      | Some (x, rest) \<Rightarrow> sscanf_from cs rest (n + 1) (put x v))"
| "sscanf_from (ConvF put # cs) s n v =
     (case scan_f s of
        None \<Rightarrow> (if n = 0 \<and> dropWhile isspace_c s = [] then EOF else n, v)
      | Some (x, rest) \<Rightarrow> sscanf_from cs rest (n + 1) (put x v))"

definition sscanf :: "string \<Rightarrow> 'v conversion list \<Rightarrow> 'v \<Rightarrow> int \<times> 'v" where
  "sscanf buffer format v = sscanf_from format buffer 0 v"

subsection \<open>\<^verbatim>\<open>RawData::setup\<close>\<close>

text \<open>The local variables of \<^verbatim>\<open>RawData::setup\<close> that the two \<^verbatim>\<open>sscanf\<close> calls assign (lines 91 to 99).\<close>

record setup_vars =
  v_index :: int
  v_rotational :: real
  v_vertical :: real
  v_enabled :: int
  v_offset1 :: real
  v_offset2 :: real
  v_offset3 :: real
  v_horzCorr :: real
  v_vertCorr :: real

definition initial_vars :: setup_vars where
  "initial_vars = \<lparr> v_index = 0, v_rotational = 0, v_vertical = 0, v_enabled = 0,
                     v_offset1 = 0, v_offset2 = 0, v_offset3 = 0, v_horzCorr = 0, v_vertCorr = 0 \<rparr>"

text \<open>The format \<^verbatim>\<open>"%d %f %f %f %f %f %d"\<close> with its seven arguments (lines 112 to 114).\<close>

definition format7 :: "setup_vars conversion list" where
  "format7 =
     [ConvD (\<lambda>x v. v\<lparr>v_index := x\<rparr>), ConvF (\<lambda>x v. v\<lparr>v_rotational := x\<rparr>),
      ConvF (\<lambda>x v. v\<lparr>v_vertical := x\<rparr>), ConvF (\<lambda>x v. v\<lparr>v_offset1 := x\<rparr>),
      ConvF (\<lambda>x v. v\<lparr>v_offset2 := x\<rparr>), ConvF (\<lambda>x v. v\<lparr>v_offset3 := x\<rparr>),
      ConvD (\<lambda>x v. v\<lparr>v_enabled := x\<rparr>)]"

text \<open>The format \<^verbatim>\<open>"%d %f %f %f %f %f %f %f %d"\<close> with its nine arguments (lines 115 to 117).\<close>

definition format9 :: "setup_vars conversion list" where
  "format9 =
     [ConvD (\<lambda>x v. v\<lparr>v_index := x\<rparr>), ConvF (\<lambda>x v. v\<lparr>v_rotational := x\<rparr>),
      ConvF (\<lambda>x v. v\<lparr>v_vertical := x\<rparr>), ConvF (\<lambda>x v. v\<lparr>v_offset1 := x\<rparr>),
      ConvF (\<lambda>x v. v\<lparr>v_offset2 := x\<rparr>), ConvF (\<lambda>x v. v\<lparr>v_offset3 := x\<rparr>),
      ConvF (\<lambda>x v. v\<lparr>v_vertCorr := x\<rparr>), ConvF (\<lambda>x v. v\<lparr>v_horzCorr := x\<rparr>),
      ConvD (\<lambda>x v. v\<lparr>v_enabled := x\<rparr>)]"

text \<open>
  The condition of lines 112 to 117: the second \<^verbatim>\<open>sscanf\<close> runs only when the first did
  not return 7, on the variables as the first call left them.
\<close>

definition line_matches :: "string \<Rightarrow> setup_vars \<Rightarrow> bool \<times> setup_vars" where
  "line_matches buffer v =
     (let (n7, v7) = sscanf buffer format7 v
      in if n7 = 7 then (True, v7)
         else let (n9, v9) = sscanf buffer format9 v7 in (n9 = 9, v9))"

text \<open>
  Lines 119 to 136: the bank and the local index are chosen by \<^verbatim>\<open>index < 32\<close>, and the
  record \<^verbatim>\<open>angles[ind]\<close> is assigned. Neither bank has a cell at a negative index or at an
  index of 32 or more.
\<close>

definition angles_of_vars :: "setup_vars \<Rightarrow> correction_angles" where
  "angles_of_vars v =
     \<lparr> rotational = from_degrees (v_rotational v),
       vertical = from_degrees (v_vertical v),
       offset1 = v_offset1 v, offset2 = v_offset2 v, offset3 = v_offset3 v,
       horzCorr = v_horzCorr v, vertCorr = v_vertCorr v, enabled = v_enabled v \<rparr>"

definition store_angles :: "setup_vars \<Rightarrow> RawData \<Rightarrow> fault + RawData" where
  "store_angles v s =
     (if v_index v < 32 then
        (let ind = v_index v
         in if 0 \<le> ind then Inr (s\<lparr> m_lower := (m_lower s)(nat ind := angles_of_vars v) \<rparr>)
            else Inl OutOfBounds)
      else
        (let ind = v_index v - 32
         in if ind < 32 then Inr (s\<lparr> m_upper := (m_upper s)(nat ind := angles_of_vars v) \<rparr>)
            else Inl OutOfBounds))"

text \<open>The body of the \<^verbatim>\<open>while\<close> loop (lines 106 to 151) on one line of the file.\<close>

definition config_line :: "string \<Rightarrow> setup_vars \<Rightarrow> RawData \<Rightarrow> fault + (setup_vars \<times> RawData)" where
  "config_line buffer v s =
     (if (case buffer of [] \<Rightarrow> False | c # _ \<Rightarrow> c = CHR ''#'') then Inr (v, s)
      else if buffer = ''upper'' then Inr (v, s)
      else if buffer = ''lower'' then Inr (v, s)
      else (case line_matches buffer v of
              (True, v') \<Rightarrow> (case store_angles v' s of Inl e \<Rightarrow> Inl e | Inr s' \<Rightarrow> Inr (v', s'))
            | (False, v') \<Rightarrow> Inr (v', s)))"

text \<open>The loop \<^verbatim>\<open>while (config.getline(buffer, sizeof(buffer)))\<close> with \<^verbatim>\<open>char buffer[256]\<close>.\<close>

function read_config :: "string \<Rightarrow> setup_vars \<Rightarrow> RawData \<Rightarrow> fault + RawData" where
  "read_config input v s =
     (case getline 256 input of
        None \<Rightarrow> Inr s
      | Some (buffer, rest) \<Rightarrow>
          (case config_line (c_str buffer) v s of
             Inl e \<Rightarrow> Inl e
           | Inr (v', s') \<Rightarrow> read_config rest v' s'))"
  by pat_completeness auto
termination
proof (relation "measure (\<lambda>(input, v, s). length input)")
  show "wf (measure (\<lambda>(input, v, s). length input))"
    by simp
next
  fix input :: string and v :: setup_vars and s :: RawData
  fix x2 buffer rest x2a v' s'
  assume "getline 256 input = Some x2" and "(buffer, rest) = x2"
  then have ne: "input \<noteq> []" and r: "rest = drop 1 (dropWhile (\<lambda>c. c \<noteq> CHR 0x0A) input)"
    by (auto simp: getline_def Let_def split: if_splits)
  have "length (dropWhile (\<lambda>c. c \<noteq> CHR 0x0A) input) \<le> length input"
    by (rule length_dropWhile_le)
  with ne r have "length rest < length input"
    by (cases input) auto
  then show "((rest, v', s'), (input, v, s)) \<in> measure (\<lambda>(input, v, s). length input)"
    by simp
qed

text \<open>
  \<^verbatim>\<open>RawData::setup\<close>. The parameter server and the file system are arguments: \<open>angles_param\<close> is the
  value of the parameter \<^verbatim>\<open>angles\<close> if it is set, \<open>pkgPath\<close> the path of the package, and
  \<open>files\<close> maps the name of each file that can be opened to its contents. The result is
  the returned \<^verbatim>\<open>int\<close> and the new state.
\<close>

definition RawData_setup ::
  "string option \<Rightarrow> string \<Rightarrow> (string \<rightharpoonup> string) \<Rightarrow> RawData \<Rightarrow> fault + (int \<times> RawData)"
where
  "RawData_setup angles_param pkgPath files s =
     (let s1 = s\<lparr> m_anglesFile := (case angles_param of
                                      Some name \<Rightarrow> name
                                    | None \<Rightarrow> pkgPath @ ''/tests/angles.config'') \<rparr>
      in case files (m_anglesFile s1) of
           None \<Rightarrow> Inr (- 1, s1)
         | Some config \<Rightarrow>
             (case read_config config initial_vars s1 of
                Inl e \<Rightarrow> Inl e
              | Inr s2 \<Rightarrow> Inr (0, s2\<lparr> m_uninitialized := False \<rparr>)))"

subsection \<open>\<^verbatim>\<open>processPacket\<close> and \<^verbatim>\<open>processScan\<close>\<close>

text \<open>
  Modelled from the spec: the layout of \<^verbatim>\<open>raw_packet_t\<close> over the packet's bytes, which the
  cast \<^verbatim>\<open>(raw_packet_t *) &pkt->data[0]\<close> relies on and \<^verbatim>\<open>rawdata.h\<close> declares. Each block
  is a two-byte tag, a two-byte rotation and its returns of three bytes each, one hundred
  bytes in all; the two-byte revolution counter and four status bytes follow the twelve
  blocks. Two-byte fields are read low byte first. Every offset the decoder reads is below
  \<open>PACKET_SIZE\<close>.
\<close>

definition as_raw_packet :: "(nat \<Rightarrow> 8 word) \<Rightarrow> raw_packet" where
  "as_raw_packet bytes =
     \<lparr> blocks = (\<lambda>i.
         \<lparr> header = two_bytes_uint (bytes (100 * i)) (bytes (100 * i + 1)),
           rotation = two_bytes_uint (bytes (100 * i + 2)) (bytes (100 * i + 3)),
           data = (\<lambda>k. bytes (100 * i + 4 + k)) \<rparr>),
       revolution = two_bytes_uint (bytes 1200) (bytes 1201),
       status = (\<lambda>k. bytes (1202 + k)) \<rparr>"

text \<open>\<^verbatim>\<open>std::vector::resize\<close>: the first \<open>n\<close> elements, padded with value-initialised ones.\<close>

definition resize :: "nat \<Rightarrow> 'a \<Rightarrow> 'a list \<Rightarrow> 'a list" where
  "resize n z xs = take n xs @ replicate (n - length xs) z"

text \<open>\<^verbatim>\<open>RawDataScans::processPacket\<close> (lines 225 to 238).\<close>

definition RawDataScans_processPacket ::
  "(nat \<Rightarrow> bool) \<Rightarrow> VelodynePacket \<Rightarrow> string \<Rightarrow> RawData \<Rightarrow> fault + RawData"
where
  "RawDataScans_processPacket ros_ok pkt frame s =
     (case packet2scans (m_upper s) (m_lower s) (as_raw_packet (pkt_data pkt))
             (resize SCANS_PER_PACKET zero_scan (m_scans s)) of
        Inl e \<Rightarrow> Inl e
      | Inr out \<Rightarrow>
          (let s1 = s\<lparr> m_scans := out, ok_calls := ok_calls s + 1 \<rparr>
           in if \<not> ros_ok (ok_calls s) then Inr s1
              else if m_cb s1
                then Inr (s1\<lparr> scans_published := scans_published s1 @ [(out, stamp pkt, frame)] \<rparr>)
                else Inr s1))"

text \<open>\<^verbatim>\<open>RawDataXYZ::processPacket\<close> (lines 267 to 286).\<close>

definition RawDataXYZ_processPacket ::
  "(nat \<Rightarrow> bool) \<Rightarrow> VelodynePacket \<Rightarrow> string \<Rightarrow> RawData \<Rightarrow> fault + RawData"
where
  "RawDataXYZ_processPacket ros_ok pkt frame s =
     (case RawDataScans_processPacket ros_ok pkt frame s of
        Inl e \<Rightarrow> Inl e
      | Inr s1 \<Rightarrow>
          (let points = map scan2xyz (m_scans s1);
               s2 = s1\<lparr> m_xyzScans := points, ok_calls := ok_calls s1 + 1 \<rparr>
           in if \<not> ros_ok (ok_calls s1) then Inr s2
              else if m_xyz_cb s2
                then Inr (s2\<lparr> xyz_published := xyz_published s2 @ [(points, stamp pkt, frame)] \<rparr>)
                else Inr s2))"

text \<open>
  The loop of \<^verbatim>\<open>RawData::processScan\<close> over the packets of the saved message, from packet
  \<open>i\<close>; \<open>processPacket\<close> is the virtual method of the object at hand.
\<close>

function packet_loop ::
  "(VelodynePacket \<Rightarrow> string \<Rightarrow> RawData \<Rightarrow> fault + RawData) \<Rightarrow> (nat \<Rightarrow> bool) \<Rightarrow>
   VelodyneScan \<Rightarrow> nat \<Rightarrow> RawData \<Rightarrow> fault + RawData"
where
  "packet_loop processPacket ros_ok scan i s =
     (if i < length (packets scan) then
        (if \<not> ros_ok (ok_calls s) then Inr (s\<lparr> ok_calls := ok_calls s + 1 \<rparr>)
         else (case processPacket (packets scan ! i) (frame_id scan)
                      (s\<lparr> ok_calls := ok_calls s + 1 \<rparr>) of
                 Inl e \<Rightarrow> Inl e
               | Inr s' \<Rightarrow> packet_loop processPacket ros_ok scan (i + 1) s'))
      else Inr s)"
  by pat_completeness auto
termination
  by (relation "measure (\<lambda>(p, ok, scan, i, s). length (packets scan) - i)") auto

text \<open>\<^verbatim>\<open>RawData::processScan\<close> (lines 51 to 65).\<close>

definition processScan ::
  "(VelodynePacket \<Rightarrow> string \<Rightarrow> RawData \<Rightarrow> fault + RawData) \<Rightarrow> (nat \<Rightarrow> bool) \<Rightarrow>
   VelodyneScan \<Rightarrow> RawData \<Rightarrow> fault + RawData"
where
  "processScan processPacket ros_ok scanMsg s =
     (let s1 = s\<lparr> m_rawScan := Some scanMsg \<rparr>
      in if m_uninitialized s1 then Inr s1
         else packet_loop processPacket ros_ok scanMsg 0 s1)"

subsection \<open>Example values\<close>

text \<open>
  An object after construction, with both callbacks subscribed. \<^verbatim>\<open>RawData::RawData()\<close> clears
  the two banks and assigns no other member, and the constructors of the two derived
  classes only reserve vector space: \<^verbatim>\<open>uninitialized_\<close> keeps the value its storage held
  before, which is the argument \<open>flag\<close>. The string, the vectors and the message pointer
  are as their own constructors leave them.
\<close>

definition constructed_RawData :: "bool \<Rightarrow> RawData" where
  "constructed_RawData flag =
     RawData_ctor
       \<lparr> m_anglesFile = [], m_uninitialized = flag,
         m_upper = (\<lambda>_. zero_angles), m_lower = (\<lambda>_. zero_angles),
         m_rawScan = None, m_scans = [], m_cb = True, m_xyzScans = [], m_xyz_cb = True,
         scans_published = [], xyz_published = [], ok_calls = 0 \<rparr>"

text \<open>
  A packet of twelve lower-bank blocks at a rotation of 180.00 degrees, whose returns all
  have the range bytes \<open>0x10, 0x27\<close> in slot 0 and the byte 7 elsewhere.
\<close>

definition example_packet :: raw_packet where
  "example_packet =
     \<lparr> blocks = (\<lambda>i. \<lparr> header = LOWER_BANK, rotation = 18000,
                         data = (\<lambda>k. if k = 0 then 0x10 else if k = 1 then 0x27 else 7) \<rparr>),
       revolution = 5, status = (\<lambda>_. 0) \<rparr>"

text \<open>
  The same packet with the bank tags alternating: the blocks of even position carry
  \<^verbatim>\<open>LOWER_BANK\<close>, those of odd position the tag \<open>0xeeff\<close> of the upper bank.
\<close>

definition two_bank_packet :: raw_packet where
  "two_bank_packet =
     \<lparr> blocks = (\<lambda>i. \<lparr> header = (if even i then LOWER_BANK else 0xeeff), rotation = 18000,
                         data = (\<lambda>k. if k = 0 then 0x10 else if k = 1 then 0x27 else 7) \<rparr>),
       revolution = 5, status = (\<lambda>_. 0) \<rparr>"

section \<open>Properties\<close>

subsection \<open>The decoding loops\<close>

declare scan_loop.simps [simp del] block_loop.simps [simp del]

lemma scan_loop_result:
  "index + (SCANS_PER_BLOCK - j) \<le> length scans \<Longrightarrow>
   \<exists>scans'. scan_loop c b r blk revo j k index scans = Inr (index + (SCANS_PER_BLOCK - j), scans')
     \<and> length scans' = length scans
     \<and> (\<forall>d < SCANS_PER_BLOCK - j. scans' ! (index + d) = scan_entry c b r blk revo (j + d) (k + RAW_SCAN_SIZE * d))
     \<and> (\<forall>p < index. scans' ! p = scans ! p)"
proof (induction c b r blk revo j k index scans rule: scan_loop.induct)
  case (1 c b r blk revo j k index scans)
  show ?case
  proof (cases "j < SCANS_PER_BLOCK")
    case False
    then show ?thesis by (simp add: scan_loop.simps)
  next
    case True
    with "1.prems" have idx: "index < length scans" by simp
    let ?e = "scan_entry c b r blk revo j k"
    from True "1.prems" have "index + 1 + (SCANS_PER_BLOCK - (j + 1)) \<le> length (scans[index := ?e])"
      by simp
    from "1.IH" [OF True idx this] obtain scans' where
      run: "scan_loop c b r blk revo (j + 1) (k + RAW_SCAN_SIZE) (index + 1) (scans[index := ?e])
              = Inr (index + 1 + (SCANS_PER_BLOCK - (j + 1)), scans')"
      and len: "length scans' = length (scans[index := ?e])"
      and new: "\<forall>d < SCANS_PER_BLOCK - (j + 1). scans' ! (index + 1 + d)
                  = scan_entry c b r blk revo (j + 1 + d) (k + RAW_SCAN_SIZE + RAW_SCAN_SIZE * d)"
      and old: "\<forall>p < index + 1. scans' ! p = (scans[index := ?e]) ! p"
      by blast
    have res: "scan_loop c b r blk revo j k index scans = Inr (index + (SCANS_PER_BLOCK - j), scans')"
      using True idx run by (subst scan_loop.simps) simp
    have at: "scans' ! (index + d) = scan_entry c b r blk revo (j + d) (k + RAW_SCAN_SIZE * d)"
      if "d < SCANS_PER_BLOCK - j" for d
    proof (cases d)
      case 0
      with old idx show ?thesis by simp
    next
      case (Suc d')
      with that have "d' < SCANS_PER_BLOCK - (j + 1)" by simp
      with new have "scans' ! (index + 1 + d')
                  = scan_entry c b r blk revo (j + 1 + d') (k + RAW_SCAN_SIZE + RAW_SCAN_SIZE * d')"
        by blast
      with Suc show ?thesis by (simp add: algebra_simps)
    qed
    have keep: "scans' ! p = scans ! p" if "p < index" for p
      using old that by simp
    from res len at keep show ?thesis by simp
  qed
qed

lemma block_loop_result:
  "index + SCANS_PER_BLOCK * (BLOCKS_PER_PACKET - i) \<le> length scans \<Longrightarrow>
   \<exists>scans'. block_loop upper lower raw i index scans
               = Inr (index + SCANS_PER_BLOCK * (BLOCKS_PER_PACKET - i), scans')
     \<and> length scans' = length scans
     \<and> (\<forall>b < BLOCKS_PER_PACKET - i. \<forall>j < SCANS_PER_BLOCK.
           scans' ! (index + SCANS_PER_BLOCK * b + j) = slot_entry upper lower raw (i + b) j)
     \<and> (\<forall>p < index. scans' ! p = scans ! p)"
proof (induction upper lower raw i index scans rule: block_loop.induct)
  case (1 upper lower raw i index scans)
  show ?case
  proof (cases "i < BLOCKS_PER_PACKET")
    case False
    then show ?thesis by (simp add: block_loop.simps)
  next
    case True
    let ?blk = "blocks raw i"
    from True have more: "BLOCKS_PER_PACKET - i = Suc (BLOCKS_PER_PACKET - (i + 1))" by simp
    with "1.prems" have room: "index + (SCANS_PER_BLOCK - 0) \<le> length scans" by simp
    from scan_loop_result [OF room] obtain mid where
      inner: "scan_loop (corrections_of upper lower ?blk) (bank_origin_of ?blk) (block_rotation ?blk)
                ?blk (revolution raw) 0 0 index scans = Inr (index + (SCANS_PER_BLOCK - 0), mid)"
      and mlen: "length mid = length scans"
      and mnew: "\<forall>d < SCANS_PER_BLOCK - 0. mid ! (index + d)
                   = scan_entry (corrections_of upper lower ?blk) (bank_origin_of ?blk)
                       (block_rotation ?blk) ?blk (revolution raw) (0 + d) (0 + RAW_SCAN_SIZE * d)"
      and mold: "\<forall>p < index. mid ! p = scans ! p"
      by blast
    from "1.prems" more mlen
    have fits: "index + SCANS_PER_BLOCK + SCANS_PER_BLOCK * (BLOCKS_PER_PACKET - (i + 1)) \<le> length mid"
      by simp
    from inner have inner': "scan_loop (corrections_of upper lower ?blk) (bank_origin_of ?blk)
                (block_rotation ?blk) ?blk (revolution raw) 0 0 index scans
                  = Inr (index + SCANS_PER_BLOCK, mid)"
      by simp
    from "1.IH" [OF True inner' refl fits] obtain scans' where
      run: "block_loop upper lower raw (i + 1) (index + SCANS_PER_BLOCK) mid
              = Inr (index + SCANS_PER_BLOCK + SCANS_PER_BLOCK * (BLOCKS_PER_PACKET - (i + 1)), scans')"
      and len: "length scans' = length mid"
      and new: "\<forall>b < BLOCKS_PER_PACKET - (i + 1). \<forall>j < SCANS_PER_BLOCK.
                  scans' ! (index + SCANS_PER_BLOCK + SCANS_PER_BLOCK * b + j)
                    = slot_entry upper lower raw (i + 1 + b) j"
      and old: "\<forall>p < index + SCANS_PER_BLOCK. scans' ! p = mid ! p"
      by auto
    have res: "block_loop upper lower raw i index scans
                 = Inr (index + SCANS_PER_BLOCK * (BLOCKS_PER_PACKET - i), scans')"
      using True inner' run more by (subst block_loop.simps) simp
    have at: "scans' ! (index + SCANS_PER_BLOCK * b + j) = slot_entry upper lower raw (i + b) j"
      if "b < BLOCKS_PER_PACKET - i" and "j < SCANS_PER_BLOCK" for b j
    proof (cases b)
      case 0
      from that(2) old have "scans' ! (index + j) = mid ! (index + j)" by simp
      also from that(2) mnew have "\<dots> = slot_entry upper lower raw i j"
        by (simp add: slot_entry_def)
      finally show ?thesis using 0 by simp
    next
      case (Suc b')
      with that have "b' < BLOCKS_PER_PACKET - (i + 1)" by simp
      with new that(2) have "scans' ! (index + SCANS_PER_BLOCK + SCANS_PER_BLOCK * b' + j)
                    = slot_entry upper lower raw (i + 1 + b') j" by blast
      with Suc show ?thesis by (simp add: algebra_simps)
    qed
    have keep: "scans' ! p = scans ! p" if "p < index" for p
      using old mold that by simp
    from res len mlen at keep show ?thesis by simp
  qed
qed

lemma packet2scans_result:
  assumes "length scans = SCANS_PER_PACKET"
  shows "\<exists>out. packet2scans upper lower raw scans = Inr out
           \<and> length out = SCANS_PER_PACKET
           \<and> (\<forall>i < BLOCKS_PER_PACKET. \<forall>j < SCANS_PER_BLOCK.
                 out ! (i * SCANS_PER_BLOCK + j) = slot_entry upper lower raw i j)"
proof -
  from assms have "0 + SCANS_PER_BLOCK * (BLOCKS_PER_PACKET - 0) \<le> length scans"
    by (simp add: SCANS_PER_PACKET_def)
  from block_loop_result [OF this, of upper lower raw] obtain out where
    run: "block_loop upper lower raw 0 0 scans = Inr (0 + SCANS_PER_BLOCK * (BLOCKS_PER_PACKET - 0), out)"
    and len: "length out = length scans"
    and new: "\<forall>b < BLOCKS_PER_PACKET - 0. \<forall>j < SCANS_PER_BLOCK.
                out ! (0 + SCANS_PER_BLOCK * b + j) = slot_entry upper lower raw (0 + b) j"
    by blast
  from run have "packet2scans upper lower raw scans = Inr out"
    by (simp add: packet2scans_def SCANS_PER_PACKET_def)
  moreover from new have "\<forall>i < BLOCKS_PER_PACKET. \<forall>j < SCANS_PER_BLOCK.
                 out ! (i * SCANS_PER_BLOCK + j) = slot_entry upper lower raw i j"
    by (simp add: mult.commute)
  ultimately show ?thesis using len assms by simp
qed

lemma normalize_angle_bounds: "- pi < normalize_angle a \<and> normalize_angle a \<le> pi"
proof -
  define t where "t = (a - pi) / (2 * pi)"
  have tp: "0 < 2 * pi" by simp
  have a_eq: "a = pi + 2 * pi * t"
    using tp by (simp add: t_def)
  have up: "t \<le> of_int \<lceil>t\<rceil>" by (rule le_of_int_ceiling)
  have lo: "of_int \<lceil>t\<rceil> - 1 < t" using ceiling_correct [of t] by simp
  have "2 * pi * t \<le> 2 * pi * of_int \<lceil>t\<rceil>"
    using up tp by (simp only: mult_le_cancel_left_pos)
  then have le: "normalize_angle a \<le> pi"
    unfolding normalize_angle_def t_def [symmetric] using a_eq by simp
  have "2 * pi * (of_int \<lceil>t\<rceil> - 1) < 2 * pi * t"
    using lo tp by (simp only: mult_less_cancel_left_pos)
  then have gt: "- pi < normalize_angle a"
    unfolding normalize_angle_def t_def [symmetric] using a_eq by (simp add: algebra_simps)
  from gt le show ?thesis ..
qed

lemma normalize_angle_turns: "\<exists>n::int. normalize_angle a = a + 2 * pi * of_int n"
  unfolding normalize_angle_def
  by (rule exI [of _ "- \<lceil>(a - pi) / (2 * pi)\<rceil>"]) simp

lemma unat_two_bytes_uint: "unat (two_bytes_uint b0 b1) = unat b0 + 256 * unat b1"
proof -
  have "unat b0 < 256" "unat b1 < 256"
    using unsigned_less [of b0, where 'a = nat] unsigned_less [of b1, where 'a = nat] by simp_all
  then have "unat b0 + 256 * unat b1 < 2 ^ LENGTH(16)" by simp
  then have "(unat b0 + 256 * unat b1) mod 2 ^ LENGTH(16) = unat b0 + 256 * unat b1"
    by (rule mod_less)
  then show ?thesis
    by (simp only: two_bytes_uint_def unat_of_nat)
qed

lemma scan_entry_cong_enabled:
  assumes "c' j = (c j)\<lparr>enabled := e\<rparr>"
  shows "scan_entry c' b r blk revo j k = scan_entry c b r blk revo j k"
  using assms by (simp add: scan_entry_def)

lemma scan_loop_enabled:
  assumes "\<forall>j < SCANS_PER_BLOCK. c' j = (c j)\<lparr>enabled := enabled (c' j)\<rparr>"
  shows "scan_loop c' b r blk revo j k index scans = scan_loop c b r blk revo j k index scans"
  using assms
proof (induction c b r blk revo j k index scans rule: scan_loop.induct)
  case (1 c b r blk revo j k index scans)
  show ?case
  proof (cases "j < SCANS_PER_BLOCK \<and> index < length scans")
    case False
    then show ?thesis
      by (subst (1 2) scan_loop.simps) auto
  next
    case True
    with "1.prems" have "c' j = (c j)\<lparr>enabled := enabled (c' j)\<rparr>" by simp
    then have e: "scan_entry c' b r blk revo j k = scan_entry c b r blk revo j k"
      by (rule scan_entry_cong_enabled)
    from True "1.IH" "1.prems" e show ?thesis
      by (subst (1 2) scan_loop.simps) simp
  qed
qed

lemma block_loop_enabled:
  assumes "\<forall>j < SCANS_PER_BLOCK. upper' j = (upper j)\<lparr>enabled := enabled (upper' j)\<rparr>"
    and "\<forall>j < SCANS_PER_BLOCK. lower' j = (lower j)\<lparr>enabled := enabled (lower' j)\<rparr>"
  shows "block_loop upper' lower' raw i index scans = block_loop upper lower raw i index scans"
  using assms
proof (induction upper lower raw i index scans rule: block_loop.induct)
  case (1 upper lower raw i index scans)
  have inner: "scan_loop (corrections_of upper' lower' blk) b r blk revo 0 0 index scans
             = scan_loop (corrections_of upper lower blk) b r blk revo 0 0 index scans" for blk b r revo
    using "1.prems" by (cases "header blk = LOWER_BANK") (simp_all add: corrections_of_def scan_loop_enabled)
  show ?case
  proof (cases "i < BLOCKS_PER_PACKET")
    case False
    then show ?thesis by (subst (1 2) block_loop.simps) simp
  next
    case True
    show ?thesis
      using True "1.IH" "1.prems" inner
      by (subst (1 2) block_loop.simps) (auto split: sum.splits)
  qed
qed

subsection \<open>Output layout\<close>

text \<open>
  Claim C1. For every packet of the fixed layout and every calibration table, decoding into
  a buffer of \<open>SCANS_PER_PACKET\<close> entries succeeds and writes exactly
  \<open>BLOCKS_PER_PACKET \<sqdot> SCANS_PER_BLOCK\<close> samples, in block-major, slot-minor order: the
  sample at position \<open>i \<sqdot> SCANS_PER_BLOCK + j\<close> is the one decoded from block \<open>i\<close>, laser
  slot \<open>j\<close> (its laser number is \<open>j\<close> plus the bank origin of block \<open>i\<close>, its intensity the
  third byte of return \<open>j\<close> of block \<open>i\<close>), and no slot is skipped.
\<close>

theorem packet2scans_block_major:
  assumes "length scans = SCANS_PER_PACKET"
  shows "\<exists>out. packet2scans upper lower raw scans = Inr out
           \<and> length out = BLOCKS_PER_PACKET * SCANS_PER_BLOCK
           \<and> (\<forall>i < BLOCKS_PER_PACKET. \<forall>j < SCANS_PER_BLOCK.
                 out ! (i * SCANS_PER_BLOCK + j) = slot_entry upper lower raw i j
                 \<and> laser_number (slot_entry upper lower raw i j)
                     = int j + (if header (blocks raw i) = LOWER_BANK then 0 else 32)
                 \<and> intensity (slot_entry upper lower raw i j)
                     = data (blocks raw i) (RAW_SCAN_SIZE * j + 2)
                 \<and> scan_revolution (slot_entry upper lower raw i j) = revolution raw)"
proof -
  have "laser_number (slot_entry upper lower raw i j)
          = int j + (if header (blocks raw i) = LOWER_BANK then 0 else 32)
        \<and> intensity (slot_entry upper lower raw i j) = data (blocks raw i) (RAW_SCAN_SIZE * j + 2)
        \<and> scan_revolution (slot_entry upper lower raw i j) = revolution raw" for i j
    by (simp add: slot_entry_def scan_entry_def bank_origin_of_def Let_def)
  with packet2scans_result [OF assms, of upper lower raw] show ?thesis
    by (simp add: SCANS_PER_PACKET_def mult.commute)
qed

theorem packet2scans_block_major_witness:
  "\<exists>out. packet2scans (\<lambda>_. zero_angles) (\<lambda>_. zero_angles) example_packet
            (replicate 384 zero_scan) = Inr out
         \<and> length out = 384
         \<and> out ! (2 * 32 + 5)
             = slot_entry (\<lambda>_. zero_angles) (\<lambda>_. zero_angles) example_packet 2 5"
proof -
  have len: "length (replicate 384 zero_scan) = SCANS_PER_PACKET"
    by (simp add: SCANS_PER_PACKET_def SCANS_PER_BLOCK_def BLOCKS_PER_PACKET_def)
  from packet2scans_block_major [OF len, of "\<lambda>_. zero_angles" "\<lambda>_. zero_angles" example_packet]
  obtain out where
    run: "packet2scans (\<lambda>_. zero_angles) (\<lambda>_. zero_angles) example_packet
            (replicate 384 zero_scan) = Inr out"
    and len': "length out = BLOCKS_PER_PACKET * SCANS_PER_BLOCK"
    and at: "\<forall>i < BLOCKS_PER_PACKET. \<forall>j < SCANS_PER_BLOCK.
               out ! (i * SCANS_PER_BLOCK + j)
                 = slot_entry (\<lambda>_. zero_angles) (\<lambda>_. zero_angles) example_packet i j"
    by (elim exE conjE) blast
  have "2 < BLOCKS_PER_PACKET" and "5 < SCANS_PER_BLOCK"
    by (simp_all add: SCANS_PER_BLOCK_def BLOCKS_PER_PACKET_def)
  with at have "out ! (2 * SCANS_PER_BLOCK + 5)
                  = slot_entry (\<lambda>_. zero_angles) (\<lambda>_. zero_angles) example_packet 2 5"
    by blast
  with run len' show ?thesis
    by (simp add: SCANS_PER_BLOCK_def BLOCKS_PER_PACKET_def)
qed

subsection \<open>Heading\<close>

text \<open>
  The heading over the reals. For block \<open>i\<close> and laser slot \<open>j\<close> the decoder normalizes
  \<open>- (block_rotation - rotational)\<close>, where the block rotation is the rotation field times
  0.01 degree, in radians, and \<open>rotational\<close> is read from record \<open>j\<close> of the bank that the
  tag of block \<open>i\<close> selects. In exact arithmetic the result lies in \<open>(-\<pi>, \<pi>]\<close>. The code
  computes in single precision, where an angle next to the cut at \<open>\<plusminus>\<pi>\<close> is rounded to
  either side of it: nothing is said here about the rounded value.
\<close>

lemma heading_in_exact_arithmetic:
  assumes "length scans = SCANS_PER_PACKET" and "i < BLOCKS_PER_PACKET" and "j < SCANS_PER_BLOCK"
  shows "\<exists>out. packet2scans upper lower raw scans = Inr out
           \<and> heading (out ! (i * SCANS_PER_BLOCK + j))
               = normalize_angle
                   (- (real (unat (rotation (blocks raw i))) * ROTATION_RESOLUTION * pi / 180
                       - rotational (if header (blocks raw i) = LOWER_BANK
                                     then lower j else upper j)))
           \<and> - pi < heading (out ! (i * SCANS_PER_BLOCK + j))
           \<and> heading (out ! (i * SCANS_PER_BLOCK + j)) \<le> pi"
proof -
  from packet2scans_result [OF assms(1), of upper lower raw] assms(2,3) obtain out where
    run: "packet2scans upper lower raw scans = Inr out"
    and at: "out ! (i * SCANS_PER_BLOCK + j) = slot_entry upper lower raw i j"
    by blast
  let ?a = "- (real (unat (rotation (blocks raw i))) * ROTATION_RESOLUTION * pi / 180
               - rotational (if header (blocks raw i) = LOWER_BANK then lower j else upper j))"
  have h: "heading (out ! (i * SCANS_PER_BLOCK + j)) = normalize_angle ?a"
    by (simp add: at slot_entry_def scan_entry_def Let_def corrections_of_def
        block_rotation_def from_degrees_def)
  from normalize_angle_bounds [of ?a] h
  have b1: "- pi < heading (out ! (i * SCANS_PER_BLOCK + j))"
    and b2: "heading (out ! (i * SCANS_PER_BLOCK + j)) \<le> pi"
    by simp_all
  from run h b1 b2 show ?thesis
    by (intro exI [of _ out] conjI)
qed

subsection \<open>Range\<close>

text \<open>
  Claim C3. For every laser return, the decoded range is read from the two bytes of the
  range field, low byte first, converted to metres at 2 mm per unit, \<open>r = raw \<sqdot> 0.002\<close>, and
  corrected to \<open>offset1 \<sqdot> r\<^sup>2 + offset2 \<sqdot> r + offset3\<close> with the coefficients of the laser:
  those of record \<open>j\<close> of the lower bank when the block carries the tag \<^verbatim>\<open>LOWER_BANK\<close>, and
  of record \<open>j\<close> of the upper bank otherwise. With the coefficients \<open>(0, 1, 0)\<close> the decoded
  range is \<open>raw \<sqdot> 0.002\<close>.
\<close>

theorem packet2scans_range:
  assumes "length scans = SCANS_PER_PACKET" and "i < BLOCKS_PER_PACKET" and "j < SCANS_PER_BLOCK"
  shows "\<exists>out. packet2scans upper lower raw scans = Inr out
           \<and> (let c = (if header (blocks raw i) = LOWER_BANK then lower j else upper j);
                   raw_units = unat (data (blocks raw i) (RAW_SCAN_SIZE * j))
                               + 256 * unat (data (blocks raw i) (RAW_SCAN_SIZE * j + 1));
                   r = real raw_units * 0.002
               in range_m (out ! (i * SCANS_PER_BLOCK + j))
                    = offset1 c * r\<^sup>2 + offset2 c * r + offset3 c
                  \<and> (offset1 c = 0 \<and> offset2 c = 1 \<and> offset3 c = 0
                       \<longrightarrow> range_m (out ! (i * SCANS_PER_BLOCK + j)) = real raw_units * 0.002))"
proof -
  from packet2scans_result [OF assms(1), of upper lower raw] assms(2,3) obtain out where
    run: "packet2scans upper lower raw scans = Inr out"
    and at: "out ! (i * SCANS_PER_BLOCK + j) = slot_entry upper lower raw i j"
    by blast
  have tb: "real (unat (two_bytes_uint a b)) = real (unat a + 256 * unat b)" for a b
    by (simp only: unat_two_bytes_uint)
  have "range_m (slot_entry upper lower raw i j)
          = (let c = (if header (blocks raw i) = LOWER_BANK then lower j else upper j);
                 r = real (unat (data (blocks raw i) (RAW_SCAN_SIZE * j))
                           + 256 * unat (data (blocks raw i) (RAW_SCAN_SIZE * j + 1))) * 0.002
             in offset1 c * r\<^sup>2 + offset2 c * r + offset3 c)"
    unfolding slot_entry_def scan_entry_def Let_def tb
    by (simp add: DISTANCE_RESOLUTION_def power2_eq_square corrections_of_def)
  with run at show ?thesis
    by (simp add: Let_def)
qed

theorem packet2scans_range_witness:
  "\<exists>out. packet2scans (\<lambda>j. zero_angles\<lparr>offset1 := 1, offset3 := real j\<rparr>)
            (\<lambda>j. zero_angles\<lparr>offset2 := 1, offset3 := real j\<rparr>)
            two_bank_packet (replicate 384 zero_scan) = Inr out
         \<and> range_m (out ! (2 * 32 + 0)) = 20
         \<and> range_m (out ! (2 * 32 + 5)) = 8.598
         \<and> range_m (out ! (3 * 32 + 0)) = 400"
proof -
  let ?upper = "\<lambda>j. zero_angles\<lparr>offset1 := 1, offset3 := real j\<rparr>"
  let ?lower = "\<lambda>j. zero_angles\<lparr>offset2 := 1, offset3 := real j\<rparr>"
  have len: "length (replicate 384 zero_scan) = SCANS_PER_PACKET"
    by (simp add: SCANS_PER_PACKET_def SCANS_PER_BLOCK_def BLOCKS_PER_PACKET_def)
  have i2: "2 < BLOCKS_PER_PACKET" and i3: "3 < BLOCKS_PER_PACKET"
    and j0: "0 < SCANS_PER_BLOCK" and j5: "5 < SCANS_PER_BLOCK"
    by (simp_all add: SCANS_PER_BLOCK_def BLOCKS_PER_PACKET_def)
  from packet2scans_range [OF len i2 j0, of ?upper ?lower two_bank_packet]
  obtain out where run: "packet2scans ?upper ?lower two_bank_packet (replicate 384 zero_scan) = Inr out"
    and a: "range_m (out ! (2 * SCANS_PER_BLOCK + 0)) = 20"
    by (auto simp: RAW_SCAN_SIZE_def Let_def two_bank_packet_def zero_angles_def LOWER_BANK_def
        power2_eq_square)
  from packet2scans_range [OF len i2 j5, of ?upper ?lower two_bank_packet] run
  have b: "range_m (out ! (2 * SCANS_PER_BLOCK + 5)) = 8.598"
    by (auto simp: RAW_SCAN_SIZE_def Let_def two_bank_packet_def zero_angles_def LOWER_BANK_def
        power2_eq_square)
  from packet2scans_range [OF len i3 j0, of ?upper ?lower two_bank_packet] run
  have c: "range_m (out ! (3 * SCANS_PER_BLOCK + 0)) = 400"
    by (auto simp: RAW_SCAN_SIZE_def Let_def two_bank_packet_def zero_angles_def LOWER_BANK_def
        power2_eq_square)
  from run a b c show ?thesis
    by (auto simp: SCANS_PER_BLOCK_def)
qed

subsection \<open>The enabled flag\<close>

text \<open>
  Claim C9. Decoding never reads the \<open>enabled\<close> field: two pairs of calibration banks that
  differ only in the \<open>enabled\<close> fields of their records give the same result, sample for
  sample, for every packet and every output buffer.
\<close>

theorem packet2scans_ignores_enabled:
  assumes "\<forall>j < SCANS_PER_BLOCK. upper' j = (upper j)\<lparr>enabled := enabled (upper' j)\<rparr>"
    and "\<forall>j < SCANS_PER_BLOCK. lower' j = (lower j)\<lparr>enabled := enabled (lower' j)\<rparr>"
  shows "packet2scans upper' lower' raw scans = packet2scans upper lower raw scans"
  by (simp add: packet2scans_def block_loop_enabled [OF assms])

theorem packet2scans_ignores_enabled_witness:
  "packet2scans (\<lambda>_. zero_angles\<lparr>enabled := 1\<rparr>) (\<lambda>j. zero_angles\<lparr>enabled := int j\<rparr>)
      example_packet (replicate 384 zero_scan)
   = packet2scans (\<lambda>_. zero_angles) (\<lambda>_. zero_angles) example_packet (replicate 384 zero_scan)"
  by (rule packet2scans_ignores_enabled
    [where upper' = "\<lambda>_. zero_angles\<lparr>enabled := 1\<rparr>" and upper = "\<lambda>_. zero_angles"
       and lower' = "\<lambda>j. zero_angles\<lparr>enabled := int j\<rparr>" and lower = "\<lambda>_. zero_angles"
       and raw = example_packet and scans = "replicate 384 zero_scan"]) simp_all

subsection \<open>Reading the calibration file\<close>

lemmas scan_simps = scan_d_def scan_f_def scan_exponent_def take_sign_def isspace_c_def isdigit_c_def
  decimal_def pow10_def sscanf_def format7_def format9_def line_matches_def initial_vars_def Let_def EOF_def

lemma scan_d_first_char:
  assumes "scan_d s = Some r"
  shows "\<exists>c cs. s = c # cs \<and> (isspace_c c \<or> c = CHR ''-'' \<or> c = CHR ''+'' \<or> isdigit_c c)"
proof (cases s)
  case Nil
  with assms show ?thesis by (simp add: scan_d_def take_sign_def)
next
  case (Cons c cs)
  show ?thesis
  proof (cases "isspace_c c \<or> c = CHR ''-'' \<or> c = CHR ''+''")
    case True
    with Cons show ?thesis by blast
  next
    case False
    with Cons have "take_sign (dropWhile isspace_c s) = (False, s)"
      by (simp add: take_sign_def)
    with assms have "takeWhile isdigit_c s \<noteq> []"
      by (auto simp: scan_d_def Let_def split: if_splits)
    with Cons have "isdigit_c c" by (auto split: if_splits)
    with Cons show ?thesis by blast
  qed
qed

lemma sscanf_from_D_count:
  assumes "sscanf_from (ConvD put # cs) s 0 v = (n, v')" and "0 < n"
  shows "scan_d s \<noteq> None"
proof
  assume "scan_d s = None"
  with assms(1) have "n = EOF \<or> n = 0" by (auto split: if_splits)
  with assms(2) show False by (simp add: EOF_def)
qed

lemma line_matches_first_char:
  assumes "line_matches buffer v = (True, v')"
  shows "\<exists>c cs. buffer = c # cs \<and> (isspace_c c \<or> c = CHR ''-'' \<or> c = CHR ''+'' \<or> isdigit_c c)"
proof -
  obtain n7 v7 where s7: "sscanf buffer format7 v = (n7, v7)" by (cases "sscanf buffer format7 v")
  obtain n9 v9 where s9: "sscanf buffer format9 v7 = (n9, v9)" by (cases "sscanf buffer format9 v7")
  from assms s7 s9 have "n7 = 7 \<or> n9 = 9"
    by (auto simp: line_matches_def split: if_splits)
  then have "scan_d buffer \<noteq> None"
  proof
    assume "n7 = 7"
    with s7 show ?thesis
      unfolding sscanf_def format7_def by (intro sscanf_from_D_count) auto
  next
    assume "n9 = 9"
    with s9 show ?thesis
      unfolding sscanf_def format9_def by (intro sscanf_from_D_count) auto
  qed
  then obtain r where "scan_d buffer = Some r" by blast
  then show ?thesis by (rule scan_d_first_char)
qed

lemma config_line_matched:
  assumes "line_matches buffer v = (True, v')"
  shows "config_line buffer v s = (case store_angles v' s of Inl e \<Rightarrow> Inl e | Inr s' \<Rightarrow> Inr (v', s'))"
proof -
  from line_matches_first_char [OF assms] obtain c cs where
    b: "buffer = c # cs" and c: "isspace_c c \<or> c = CHR ''-'' \<or> c = CHR ''+'' \<or> isdigit_c c"
    by blast
  from c have "c \<noteq> CHR ''#''" "c \<noteq> CHR ''u''" "c \<noteq> CHR ''l''"
    by (auto simp: isspace_c_def isdigit_c_def)
  with b assms show ?thesis
    by (simp add: config_line_def)
qed

text \<open>
  Claim C4. For every line that one of the two formats recognizes, the loader stores
  \<open>rotational\<close> and \<open>vertical\<close> converted from degrees to radians, and chooses the cell by
  the index: an index below 32 goes to the lower bank at that index, any other index to
  the upper bank at the index minus 32. An index from 0 to 31 is stored in the lower bank
  and one from 32 to 63 in the upper bank; any other index is outside both banks. A line
  of index 40 is stored in the upper bank at index 8.
\<close>

theorem config_line_routes_by_index:
  assumes "line_matches buffer v = (True, v')"
  shows "config_line buffer v s =
           (if 0 \<le> v_index v' \<and> v_index v' < 32
              then Inr (v', s\<lparr> m_lower := (m_lower s)(nat (v_index v') := angles_of_vars v') \<rparr>)
            else if 32 \<le> v_index v' \<and> v_index v' < 64
              then Inr (v', s\<lparr> m_upper := (m_upper s)(nat (v_index v' - 32) := angles_of_vars v') \<rparr>)
            else Inl OutOfBounds)
         \<and> rotational (angles_of_vars v') = v_rotational v' * pi / 180
         \<and> vertical (angles_of_vars v') = v_vertical v' * pi / 180"
  unfolding config_line_matched [OF assms]
  by (simp add: store_angles_def Let_def angles_of_vars_def from_degrees_def)

theorem config_line_routes_by_index_witness:
  "config_line ''40 10.0 -2.0 0.1 0.2 0.3 1'' initial_vars (constructed_RawData True) =
     Inr (\<lparr> v_index = 40, v_rotational = 10, v_vertical = - 2, v_enabled = 1,
            v_offset1 = 1 / 10, v_offset2 = 1 / 5, v_offset3 = 3 / 10,
            v_horzCorr = 0, v_vertCorr = 0 \<rparr>,
          (constructed_RawData True) \<lparr> m_upper := (m_upper (constructed_RawData True))
            (8 := \<lparr> rotational = 10 * pi / 180, vertical = - 2 * pi / 180,
                    offset1 = 1 / 10, offset2 = 1 / 5, offset3 = 3 / 10,
                    horzCorr = 0, vertCorr = 0, enabled = 1 \<rparr>) \<rparr>)"
proof -
  have m: "line_matches ''40 10.0 -2.0 0.1 0.2 0.3 1'' initial_vars =
             (True, \<lparr> v_index = 40, v_rotational = 10, v_vertical = - 2, v_enabled = 1,
                      v_offset1 = 1 / 10, v_offset2 = 1 / 5, v_offset3 = 3 / 10,
                      v_horzCorr = 0, v_vertCorr = 0 \<rparr>)"
    by (simp add: scan_simps)
  from config_line_routes_by_index [OF m, of "constructed_RawData True"] show ?thesis
    by (simp add: angles_of_vars_def from_degrees_def)
qed

lemma getline_short_line:
  assumes "length l < 256" and "CHR 0x0A \<notin> set l"
  shows "getline 256 (l @ CHR 0x0A # tail) = Some (l, tail)"
proof -
  from assms(2) have "takeWhile (\<lambda>c. c \<noteq> CHR 0x0A) (l @ CHR 0x0A # tail) = l"
    by (auto simp: takeWhile_tail)
  moreover from assms(2) have "dropWhile (\<lambda>c. c \<noteq> CHR 0x0A) (l @ CHR 0x0A # tail) = CHR 0x0A # tail"
    by (auto simp: dropWhile_append3)
  ultimately show ?thesis using assms(1) by (simp add: getline_def)
qed

lemma getline_long_line:
  assumes "256 \<le> length l" and "CHR 0x0A \<notin> set l"
  shows "getline 256 (l @ tail) = None"
proof -
  from assms(2) have "takeWhile (\<lambda>c. c \<noteq> CHR 0x0A) (l @ tail) = l @ takeWhile (\<lambda>c. c \<noteq> CHR 0x0A) tail"
    by (intro takeWhile_append2) auto
  with assms(1) show ?thesis by (simp add: getline_def Let_def)
qed

declare read_config.simps [simp del]

lemma read_config_stops_at_long_line:
  assumes "\<forall>l \<in> set ls. length l < 256 \<and> CHR 0x0A \<notin> set l"
    and "256 \<le> length long" and "CHR 0x0A \<notin> set long"
  shows "read_config (concat (map (\<lambda>l. l @ [CHR 0x0A]) ls) @ long @ rest) v s
           = read_config (concat (map (\<lambda>l. l @ [CHR 0x0A]) ls)) v s"
  using assms(1)
proof (induction ls arbitrary: v s)
  case Nil
  from assms(2,3) have "getline 256 (long @ rest) = None" by (rule getline_long_line)
  then show ?case by (simp add: read_config.simps [of "long @ rest"] read_config.simps [of "[]"] getline_def)
next
  case (Cons l ls)
  let ?pre = "concat (map (\<lambda>l. l @ [CHR 0x0A]) ls)"
  from Cons.prems have l: "length l < 256" "CHR 0x0A \<notin> set l" by simp_all
  have g1: "getline 256 (l @ CHR 0x0A # (?pre @ long @ rest)) = Some (l, ?pre @ long @ rest)"
    using l by (rule getline_short_line)
  have g2: "getline 256 (l @ CHR 0x0A # ?pre) = Some (l, ?pre)"
    using l by (rule getline_short_line)
  from Cons.prems have ih: "read_config (?pre @ long @ rest) v' s' = read_config ?pre v' s'" for v' s'
    by (intro Cons.IH) simp
  have "read_config (concat (map (\<lambda>l. l @ [CHR 0x0A]) (l # ls)) @ long @ rest) v s
          = read_config (l @ CHR 0x0A # (?pre @ long @ rest)) v s"
    by simp
  also have "\<dots> = (case config_line (c_str l) v s of Inl e \<Rightarrow> Inl e
                     | Inr (v', s') \<Rightarrow> read_config (?pre @ long @ rest) v' s')"
    by (subst read_config.simps) (simp add: g1)
  also have "\<dots> = (case config_line (c_str l) v s of Inl e \<Rightarrow> Inl e
                     | Inr (v', s') \<Rightarrow> read_config ?pre v' s')"
    by (simp add: ih split: sum.splits prod.splits)
  also have "\<dots> = read_config (l @ CHR 0x0A # ?pre) v s"
    by (subst (2) read_config.simps) (simp add: g2)
  finally show ?case by simp
qed

declare packet_loop.simps [simp del]

text \<open>
  Claim C6. The claim is that a well-formed line of nine fields is read under the
  nine-field format, with \<open>vertCorr\<close>, \<open>horzCorr\<close> and \<open>enabled\<close> taken from its seventh,
  eighth and ninth fields. The seven-field format is tried first, and its last conversion
  \<^verbatim>\<open>%d\<close> accepts the integer prefix of the seventh field: the file of the single line
  \<^verbatim>\<open>0 1.0 2.0 0.1 0.2 0.3 7.5 0.6 1\<close> is loaded with \<open>enabled = 7\<close>, and \<open>vertCorr\<close> and
  \<open>horzCorr\<close> are left at 0, where the nine-field format gives \<open>vertCorr = 7.5\<close>,
  \<open>horzCorr = 0.6\<close> and \<open>enabled = 1\<close>.
\<close>

theorem nine_field_line_read_as_seven_fields:
  "RawData_setup (Some ''angles.config'') []
     [''angles.config'' \<mapsto> ''0 1.0 2.0 0.1 0.2 0.3 7.5 0.6 1''] (constructed_RawData True)
   = Inr (0, (constructed_RawData True)
            \<lparr> m_anglesFile := ''angles.config'',
              m_uninitialized := False,
              m_lower := (m_lower (constructed_RawData True))
                (0 := \<lparr> rotational = 1 * pi / 180, vertical = 2 * pi / 180,
                        offset1 = 1 / 10, offset2 = 1 / 5, offset3 = 3 / 10,
                        horzCorr = 0, vertCorr = 0, enabled = 7 \<rparr>) \<rparr>)"
proof -
  have g: "getline 256 ''0 1.0 2.0 0.1 0.2 0.3 7.5 0.6 1''
             = Some (''0 1.0 2.0 0.1 0.2 0.3 7.5 0.6 1'', [])"
    by (simp add: getline_def)
  have c: "c_str ''0 1.0 2.0 0.1 0.2 0.3 7.5 0.6 1'' = ''0 1.0 2.0 0.1 0.2 0.3 7.5 0.6 1''"
    by (simp add: c_str_def)
  have m: "line_matches ''0 1.0 2.0 0.1 0.2 0.3 7.5 0.6 1'' initial_vars =
             (True, \<lparr> v_index = 0, v_rotational = 1, v_vertical = 2, v_enabled = 7,
                      v_offset1 = 1 / 10, v_offset2 = 1 / 5, v_offset3 = 3 / 10,
                      v_horzCorr = 0, v_vertCorr = 0 \<rparr>)"
    by (simp add: scan_simps)
  have l: "config_line ''0 1.0 2.0 0.1 0.2 0.3 7.5 0.6 1'' initial_vars s
             = Inr (\<lparr> v_index = 0, v_rotational = 1, v_vertical = 2, v_enabled = 7,
                      v_offset1 = 1 / 10, v_offset2 = 1 / 5, v_offset3 = 3 / 10,
                      v_horzCorr = 0, v_vertCorr = 0 \<rparr>,
                    s\<lparr> m_lower := (m_lower s)
                        (0 := \<lparr> rotational = 1 * pi / 180, vertical = 2 * pi / 180,
                                offset1 = 1 / 10, offset2 = 1 / 5, offset3 = 3 / 10,
                                horzCorr = 0, vertCorr = 0, enabled = 7 \<rparr>) \<rparr>)" for s
    by (simp add: config_line_matched [OF m] store_angles_def angles_of_vars_def from_degrees_def)
  have e: "getline 256 [] = None"
    by (simp add: getline_def)
  have r: "read_config ''0 1.0 2.0 0.1 0.2 0.3 7.5 0.6 1'' initial_vars s
             = Inr (s\<lparr> m_lower := (m_lower s)
                        (0 := \<lparr> rotational = 1 * pi / 180, vertical = 2 * pi / 180,
                                offset1 = 1 / 10, offset2 = 1 / 5, offset3 = 3 / 10,
                                horzCorr = 0, vertCorr = 0, enabled = 7 \<rparr>) \<rparr>)" for s
    by (subst read_config.simps, simp only: g c l option.case prod.case sum.case)
       (subst read_config.simps, simp only: e option.case)
  show ?thesis
    by (simp add: RawData_setup_def r constructed_RawData_def RawData_ctor_def)
qed

text \<open>
  Claim C10. If the calibration file has a line of 256 or more characters, loading stops
  at that line: the load gives what the lines before it give, the long line and all
  that follows it are ignored, and the load still returns 0 and clears
  \<open>uninitialized\<close>. Here \<open>ls\<close> are the lines before the long one, each shorter than 256
  characters.
\<close>

theorem setup_stops_at_long_line:
  assumes "\<forall>l \<in> set ls. length l < 256 \<and> CHR 0x0A \<notin> set l"
    and "256 \<le> length long" and "CHR 0x0A \<notin> set long"
  shows "RawData_setup (Some name) pkgPath
           [name \<mapsto> concat (map (\<lambda>l. l @ [CHR 0x0A]) ls) @ long @ rest] s
         = (case read_config (concat (map (\<lambda>l. l @ [CHR 0x0A]) ls)) initial_vars
                  (s\<lparr> m_anglesFile := name \<rparr>) of
              Inl e \<Rightarrow> Inl e
            | Inr s' \<Rightarrow> Inr (0, s'\<lparr> m_uninitialized := False \<rparr>))
       \<and> RawData_setup (Some name) pkgPath
           [name \<mapsto> concat (map (\<lambda>l. l @ [CHR 0x0A]) ls) @ long @ rest] s
         = RawData_setup (Some name) pkgPath
             [name \<mapsto> concat (map (\<lambda>l. l @ [CHR 0x0A]) ls)] s"
  by (simp add: RawData_setup_def read_config_stops_at_long_line [OF assms])

theorem setup_stops_at_long_line_witness:
  "RawData_setup (Some ''angles.config'') []
     [''angles.config'' \<mapsto>
        concat (map (\<lambda>l. l @ [CHR 0x0A]) [''5 10.0 -2.0 0.1 0.2 0.3 1''])
        @ replicate 256 (CHR ''#'') @ (CHR 0x0A # ''6 10.0 -2.0 0.1 0.2 0.3 1'')]
     (constructed_RawData True)
   = Inr (0, (constructed_RawData True)
            \<lparr> m_anglesFile := ''angles.config'',
              m_uninitialized := False,
              m_lower := (m_lower (constructed_RawData True))
                (5 := \<lparr> rotational = 10 * pi / 180, vertical = - 2 * pi / 180,
                        offset1 = 1 / 10, offset2 = 1 / 5, offset3 = 3 / 10,
                        horzCorr = 0, vertCorr = 0, enabled = 1 \<rparr>) \<rparr>)"
proof -
  have short: "\<forall>l \<in> set [''5 10.0 -2.0 0.1 0.2 0.3 1'']. length l < 256 \<and> CHR 0x0A \<notin> set l"
    by simp
  have long: "256 \<le> length (replicate 256 (CHR ''#''))" "CHR 0x0A \<notin> set (replicate 256 (CHR ''#''))"
    by simp_all
  have g: "getline 256 (''5 10.0 -2.0 0.1 0.2 0.3 1'' @ CHR 0x0A # [])
             = Some (''5 10.0 -2.0 0.1 0.2 0.3 1'', [])"
    by (rule getline_short_line) simp_all
  have c: "c_str ''5 10.0 -2.0 0.1 0.2 0.3 1'' = ''5 10.0 -2.0 0.1 0.2 0.3 1''"
    by (simp add: c_str_def)
  have m: "line_matches ''5 10.0 -2.0 0.1 0.2 0.3 1'' initial_vars =
             (True, \<lparr> v_index = 5, v_rotational = 10, v_vertical = - 2, v_enabled = 1,
                      v_offset1 = 1 / 10, v_offset2 = 1 / 5, v_offset3 = 3 / 10,
                      v_horzCorr = 0, v_vertCorr = 0 \<rparr>)"
    by (simp add: scan_simps)
  have l: "config_line ''5 10.0 -2.0 0.1 0.2 0.3 1'' initial_vars s
             = Inr (\<lparr> v_index = 5, v_rotational = 10, v_vertical = - 2, v_enabled = 1,
                      v_offset1 = 1 / 10, v_offset2 = 1 / 5, v_offset3 = 3 / 10,
                      v_horzCorr = 0, v_vertCorr = 0 \<rparr>,
                    s\<lparr> m_lower := (m_lower s)
                        (5 := \<lparr> rotational = 10 * pi / 180, vertical = - 2 * pi / 180,
                                offset1 = 1 / 10, offset2 = 1 / 5, offset3 = 3 / 10,
                                horzCorr = 0, vertCorr = 0, enabled = 1 \<rparr>) \<rparr>)" for s
    by (simp add: config_line_matched [OF m] store_angles_def angles_of_vars_def from_degrees_def)
  have e: "getline 256 [] = None"
    by (simp add: getline_def)
  have r: "read_config (''5 10.0 -2.0 0.1 0.2 0.3 1'' @ CHR 0x0A # []) initial_vars s
             = Inr (s\<lparr> m_lower := (m_lower s)
                        (5 := \<lparr> rotational = 10 * pi / 180, vertical = - 2 * pi / 180,
                                offset1 = 1 / 10, offset2 = 1 / 5, offset3 = 3 / 10,
                                horzCorr = 0, vertCorr = 0, enabled = 1 \<rparr>) \<rparr>)" for s
    by (subst read_config.simps, simp only: g c l option.case prod.case sum.case)
       (subst read_config.simps, simp only: e option.case)
  have pre: "concat (map (\<lambda>l. l @ [CHR 0x0A]) [''5 10.0 -2.0 0.1 0.2 0.3 1''])
               = ''5 10.0 -2.0 0.1 0.2 0.3 1'' @ CHR 0x0A # []"
    by simp
  from setup_stops_at_long_line [OF short long, of "''angles.config''" "[]"
      "CHR 0x0A # ''6 10.0 -2.0 0.1 0.2 0.3 1''" "constructed_RawData True"]
  show ?thesis
    unfolding pre r by (simp add: constructed_RawData_def RawData_ctor_def)
qed

subsection \<open>Processing packets and scans\<close>

text \<open>The bytes the decoder reads from a packet lie inside its buffer.\<close>

lemma decoder_offsets_in_packet:
  assumes "i < BLOCKS_PER_PACKET" and "j < SCANS_PER_BLOCK"
  shows "100 * i + 4 + (RAW_SCAN_SIZE * j + 2) < PACKET_SIZE \<and> 1201 < PACKET_SIZE"
  using assms
  by (simp add: BLOCKS_PER_PACKET_def SCANS_PER_BLOCK_def RAW_SCAN_SIZE_def PACKET_SIZE_def)

lemma length_resize: "length (resize n z xs) = n"
  by (simp add: resize_def)

text \<open>
  \<open>processPacket\<close> has no failing path: every packet is decoded into \<open>SCANS_PER_PACKET\<close>
  samples, which are published when ROS is running and a callback is subscribed.
\<close>

lemma Scans_processPacket_result:
  "\<exists>out. packet2scans (m_upper s) (m_lower s) (as_raw_packet (pkt_data pkt))
            (resize SCANS_PER_PACKET zero_scan (m_scans s)) = Inr out
         \<and> length out = SCANS_PER_PACKET
         \<and> RawDataScans_processPacket ros_ok pkt frame s
             = Inr (s\<lparr> m_scans := out, ok_calls := ok_calls s + 1,
                       scans_published :=
                         (if ros_ok (ok_calls s) \<and> m_cb s
                          then scans_published s @ [(out, stamp pkt, frame)]
                          else scans_published s) \<rparr>)"
proof -
  from packet2scans_result [OF length_resize, of "m_upper s" "m_lower s"
      "as_raw_packet (pkt_data pkt)" zero_scan "m_scans s"]
  obtain out where run: "packet2scans (m_upper s) (m_lower s) (as_raw_packet (pkt_data pkt))
            (resize SCANS_PER_PACKET zero_scan (m_scans s)) = Inr out"
    and len: "length out = SCANS_PER_PACKET"
    by blast
  have "RawDataScans_processPacket ros_ok pkt frame s
             = Inr (s\<lparr> m_scans := out, ok_calls := ok_calls s + 1,
                       scans_published :=
                         (if ros_ok (ok_calls s) \<and> m_cb s
                          then scans_published s @ [(out, stamp pkt, frame)]
                          else scans_published s) \<rparr>)"
    by (simp add: RawDataScans_processPacket_def run Let_def)
  with run len show ?thesis by blast
qed

lemma Scans_processPacket_flag:
  assumes "RawDataScans_processPacket ros_ok pkt frame s = Inr t"
  shows "m_uninitialized t = m_uninitialized s"
  using assms Scans_processPacket_result [of s pkt ros_ok frame]
  by auto

lemma XYZ_processPacket_flag:
  assumes "RawDataXYZ_processPacket ros_ok pkt frame s = Inr t"
  shows "m_uninitialized t = m_uninitialized s"
proof -
  from assms obtain s1 where
    s1: "RawDataScans_processPacket ros_ok pkt frame s = Inr s1"
    by (auto simp: RawDataXYZ_processPacket_def split: sum.splits)
  with assms have "m_uninitialized t = m_uninitialized s1"
    by (auto simp: RawDataXYZ_processPacket_def Let_def split: if_splits)
  with Scans_processPacket_flag [OF s1] show ?thesis by simp
qed

lemma packet_loop_flag:
  assumes "\<forall>pkt frame s t. pp pkt frame s = Inr t \<longrightarrow> m_uninitialized t = m_uninitialized s"
    and "packet_loop pp ros_ok scan i s = Inr t"
  shows "m_uninitialized t = m_uninitialized s"
  using assms
proof (induction pp ros_ok scan i s rule: packet_loop.induct)
  case (1 pp ros_ok scan i s)
  show ?case
  proof (cases "i < length (packets scan)")
    case False
    with "1.prems"(2) show ?thesis by (simp add: packet_loop.simps)
  next
    case more: True
    show ?thesis
    proof (cases "ros_ok (ok_calls s)")
      case False
      with more "1.prems"(2) show ?thesis by (auto simp: packet_loop.simps)
    next
      case True
      from more True "1.prems"(2) obtain s' where
        step: "pp (packets scan ! i) (frame_id scan) (s\<lparr> ok_calls := ok_calls s + 1 \<rparr>) = Inr s'"
        and rest: "packet_loop pp ros_ok scan (i + 1) s' = Inr t"
        by (subst (asm) packet_loop.simps) (auto split: sum.splits)
      from "1.prems"(1) step have "m_uninitialized s' = m_uninitialized s"
        by fastforce
      moreover from more True step have "m_uninitialized t = m_uninitialized s'"
        by (intro "1.IH" [OF _ _ _ "1.prems"(1) rest]) simp_all
      ultimately show ?thesis by simp
    qed
  qed
qed

lemma processScan_flag:
  assumes "\<forall>pkt frame s t. pp pkt frame s = Inr t \<longrightarrow> m_uninitialized t = m_uninitialized s"
    and "processScan pp ros_ok msg s = Inr t"
  shows "m_uninitialized t = m_uninitialized s"
proof (cases "m_uninitialized s")
  case True
  with assms(2) show ?thesis by (auto simp: processScan_def)
next
  case False
  with assms(2) have "packet_loop pp ros_ok msg 0 (s\<lparr> m_rawScan := Some msg \<rparr>) = Inr t"
    by (simp add: processScan_def)
  from packet_loop_flag [OF assms(1) this] show ?thesis by simp
qed

text \<open>
  The flag \<open>uninitialized\<close> and the operations. The constructor leaves it as its storage
  held it. While it is set, \<open>processScan\<close> only saves the message. A load that returns 0
  clears it, a load that returns another value leaves it as it was, and once it is
  cleared neither a further load nor \<open>processScan\<close>, with the packet method of either
  class, sets it again.
\<close>

lemma uninitialized_flag_transitions:
  "m_uninitialized (RawData_ctor s) = m_uninitialized s
   \<and> (m_uninitialized s \<longrightarrow> processScan pp ros_ok msg s = Inr (s\<lparr> m_rawScan := Some msg \<rparr>))
   \<and> (\<forall>t. RawData_setup angles_param pkgPath files s = Inr (0, t) \<longrightarrow> \<not> m_uninitialized t)
   \<and> (\<forall>r t. RawData_setup angles_param pkgPath files s = Inr (r, t) \<and> r \<noteq> 0
          \<longrightarrow> m_uninitialized t = m_uninitialized s)
   \<and> (\<not> m_uninitialized s \<longrightarrow>
        (\<forall>r t. RawData_setup angles_param pkgPath files s = Inr (r, t) \<longrightarrow> \<not> m_uninitialized t)
        \<and> (\<forall>t. processScan (RawDataScans_processPacket ros_ok) ros_ok msg s = Inr t
               \<longrightarrow> \<not> m_uninitialized t)
        \<and> (\<forall>t. processScan (RawDataXYZ_processPacket ros_ok) ros_ok msg s = Inr t
               \<longrightarrow> \<not> m_uninitialized t))"
proof -
  have ctor: "m_uninitialized (RawData_ctor s) = m_uninitialized s"
    by (simp add: RawData_ctor_def)
  have noop: "processScan pp ros_ok msg s = Inr (s\<lparr> m_rawScan := Some msg \<rparr>)"
    if "m_uninitialized s"
    using that by (simp add: processScan_def)
  have ok: "\<not> m_uninitialized t" if "RawData_setup angles_param pkgPath files s = Inr (0, t)" for t
    using that by (auto simp: RawData_setup_def Let_def split: option.splits sum.splits)
  have fail: "m_uninitialized t = m_uninitialized s"
    if "RawData_setup angles_param pkgPath files s = Inr (r, t)" and "r \<noteq> 0" for r t
    using that by (auto simp: RawData_setup_def Let_def split: option.splits sum.splits)
  have stay: "\<not> m_uninitialized t"
    if "\<not> m_uninitialized s" and "RawData_setup angles_param pkgPath files s = Inr (r, t)" for r t
    using that by (auto simp: RawData_setup_def Let_def split: option.splits sum.splits)
  have scans: "\<not> m_uninitialized t"
    if "\<not> m_uninitialized s"
      and "processScan (RawDataScans_processPacket ros_ok) ros_ok msg s = Inr t" for t
  proof -
    have "\<forall>pkt frame s t. RawDataScans_processPacket ros_ok pkt frame s = Inr t
            \<longrightarrow> m_uninitialized t = m_uninitialized s"
      using Scans_processPacket_flag by blast
    from processScan_flag [OF this that(2)] that(1) show ?thesis by simp
  qed
  have xyz: "\<not> m_uninitialized t"
    if "\<not> m_uninitialized s"
      and "processScan (RawDataXYZ_processPacket ros_ok) ros_ok msg s = Inr t" for t
  proof -
    have "\<forall>pkt frame s t. RawDataXYZ_processPacket ros_ok pkt frame s = Inr t
            \<longrightarrow> m_uninitialized t = m_uninitialized s"
      using XYZ_processPacket_flag by blast
    from processScan_flag [OF this that(2)] that(1) show ?thesis by simp
  qed
  from ctor noop ok fail stay scans xyz show ?thesis
    by (intro conjI impI allI) blast+
qed

text \<open>
  Claim C7. The claim is that before a successful calibration load every call to process
  a scan is a no-op. The guard of \<open>processScan\<close> reads \<open>uninitialized\<close>, which no
  constructor assigns: an object constructed in storage where the flag reads false, and
  never loaded, decodes the packet of its first scan message with the zero-valued banks
  and publishes the 384 samples.
\<close>

theorem processScan_before_setup_decodes:
  "(let scanMsg = \<lparr> frame_id = ''velodyne'',
                    packets = [\<lparr> stamp = 0, pkt_data = (\<lambda>_. 0) \<rparr>] \<rparr>;
        result = processScan (RawDataScans_processPacket (\<lambda>_. True)) (\<lambda>_. True) scanMsg
                   (constructed_RawData False)
    in m_upper (constructed_RawData False) = (\<lambda>_. zero_angles)
       \<and> m_lower (constructed_RawData False) = (\<lambda>_. zero_angles)
       \<and> \<not> isl result
       \<and> length (m_scans (projr result)) = 384
       \<and> length (scans_published (projr result)) = 1
       \<and> length (fst (hd (scans_published (projr result)))) = 384)"
proof -
  let ?pkt = "\<lparr> stamp = 0, pkt_data = (\<lambda>_. 0) \<rparr> :: VelodynePacket"
  let ?msg = "\<lparr> frame_id = ''velodyne'', packets = [?pkt] \<rparr>"
  let ?pp = "RawDataScans_processPacket (\<lambda>_. True)"
  have built: "constructed_RawData False =
      \<lparr> m_anglesFile = [], m_uninitialized = False,
        m_upper = (\<lambda>_. zero_angles), m_lower = (\<lambda>_. zero_angles),
        m_rawScan = None, m_scans = [], m_cb = True, m_xyzScans = [], m_xyz_cb = True,
        scans_published = [], xyz_published = [], ok_calls = 0 \<rparr>"
    by (simp add: constructed_RawData_def RawData_ctor_def)
  let ?s1 = "\<lparr> m_anglesFile = [], m_uninitialized = False,
        m_upper = (\<lambda>_. zero_angles), m_lower = (\<lambda>_. zero_angles),
        m_rawScan = Some ?msg, m_scans = [], m_cb = True, m_xyzScans = [], m_xyz_cb = True,
        scans_published = [], xyz_published = [], ok_calls = Suc 0 \<rparr>"
  from Scans_processPacket_result [of ?s1 ?pkt "\<lambda>_. True" "''velodyne''"]
  obtain out where len: "length out = SCANS_PER_PACKET"
    and run: "?pp ?pkt ''velodyne'' ?s1
      = Inr \<lparr> m_anglesFile = [], m_uninitialized = False,
              m_upper = (\<lambda>_. zero_angles), m_lower = (\<lambda>_. zero_angles),
              m_rawScan = Some ?msg, m_scans = out, m_cb = True, m_xyzScans = [],
              m_xyz_cb = True, scans_published = [(out, 0, ''velodyne'')],
              xyz_published = [], ok_calls = 2 \<rparr>"
    by auto
  have last: "packet_loop ?pp (\<lambda>_. True) ?msg (Suc 0) t = Inr t" for t
    by (subst packet_loop.simps) simp
  have "packet_loop ?pp (\<lambda>_. True) ?msg 0
          \<lparr> m_anglesFile = [], m_uninitialized = False,
            m_upper = (\<lambda>_. zero_angles), m_lower = (\<lambda>_. zero_angles),
            m_rawScan = Some ?msg, m_scans = [], m_cb = True, m_xyzScans = [], m_xyz_cb = True,
            scans_published = [], xyz_published = [], ok_calls = 0 \<rparr>
        = Inr \<lparr> m_anglesFile = [], m_uninitialized = False,
              m_upper = (\<lambda>_. zero_angles), m_lower = (\<lambda>_. zero_angles),
              m_rawScan = Some ?msg, m_scans = out, m_cb = True, m_xyzScans = [],
              m_xyz_cb = True, scans_published = [(out, 0, ''velodyne'')],
              xyz_published = [], ok_calls = 2 \<rparr>"
    by (subst packet_loop.simps) (simp add: run last)
  then have "processScan ?pp (\<lambda>_. True) ?msg (constructed_RawData False)
        = Inr \<lparr> m_anglesFile = [], m_uninitialized = False,
              m_upper = (\<lambda>_. zero_angles), m_lower = (\<lambda>_. zero_angles),
              m_rawScan = Some ?msg, m_scans = out, m_cb = True, m_xyzScans = [],
              m_xyz_cb = True, scans_published = [(out, 0, ''velodyne'')],
              xyz_published = [], ok_calls = 2 \<rparr>"
    by (simp add: processScan_def built)
  with len show ?thesis
    by (simp add: Let_def built SCANS_PER_PACKET_def SCANS_PER_BLOCK_def BLOCKS_PER_PACKET_def)
qed

subsection \<open>Projection\<close>

text \<open>
  Claim C5. Projection of a decoded sample computes \<open>xy = range \<sqdot> cos pitch\<close>,
  \<open>x = xy \<sqdot> cos heading\<close>, \<open>y = xy \<sqdot> sin heading\<close>, \<open>z = range \<sqdot> sin pitch\<close> and copies the laser
  index, heading, revolution and intensity unchanged. Hence a sample of pitch 0 is
  projected to \<open>z = 0\<close> with \<open>(x, y)\<close> the point of polar coordinates \<open>(range, heading)\<close>, at
  distance \<open>\<bar>range\<bar>\<close> from the origin, and a sample of heading 0 to \<open>y = 0\<close> and
  \<open>x = range \<sqdot> cos pitch\<close>.
\<close>

theorem scan2xyz_projection:
  "scan2xyz \<lparr> laser_number = n, heading = h, pitch = p, range_m = r,
             intensity = a, scan_revolution = v \<rparr>
     = \<lparr> xyz_laser_number = n, xyz_heading = h, xyz_revolution = v,
         xyz_x = (r * cos p) * cos h, xyz_y = (r * cos p) * sin h, xyz_z = r * sin p,
         xyz_intensity = a \<rparr>
   \<and> (let q = scan2xyz \<lparr> laser_number = n, heading = h, pitch = 0, range_m = r,
                        intensity = a, scan_revolution = v \<rparr>
      in xyz_z q = 0 \<and> xyz_x q = r * cos h \<and> xyz_y q = r * sin h
         \<and> sqrt ((xyz_x q)\<^sup>2 + (xyz_y q)\<^sup>2) = \<bar>r\<bar>)
   \<and> (let q = scan2xyz \<lparr> laser_number = n, heading = 0, pitch = p, range_m = r,
                        intensity = a, scan_revolution = v \<rparr>
      in xyz_y q = 0 \<and> xyz_x q = r * cos p)"
proof -
  have "(r * cos h)\<^sup>2 + (r * sin h)\<^sup>2 = r\<^sup>2 * ((cos h)\<^sup>2 + (sin h)\<^sup>2)"
    by (simp only: power_mult_distrib distrib_left)
  also have "\<dots> = r\<^sup>2"
    by simp
  finally have "sqrt ((r * cos h)\<^sup>2 + (r * sin h)\<^sup>2) = \<bar>r\<bar>"
    by simp
  then show ?thesis
    by (simp add: scan2xyz_def Let_def)
qed

end
